theory Spec2Isabelle
  imports Main
begin

section \<open>Voice recognition: the model\<close>

text \<open>
  A shallow embedding of \<^verbatim>\<open>backend/voice_recognition.py\<close>, class \<^verbatim>\<open>VoiceRecognizer\<close>.

  The class talks to three things it does not own: the \<^verbatim>\<open>speech_recognition\<close> library
  (microphone, phrase capture, cloud transcription), the Python thread library, and the two
  callbacks handed in by the caller. Each of their calls either returns or raises, so each is
  an input of the model whose value is an exception or a result. Everything the class does
  to the outside (printing, calling a callback, opening the microphone, starting or joining a
  thread) is written to a trace of events, in program order.
\<close>

subsection \<open>Exceptions and values\<close>

text \<open>
  The exception classes the source distinguishes in its \<^verbatim>\<open>except\<close> clauses, each with
  the text \<^verbatim>\<open>str(e)\<close> gives. All are subclasses of \<^verbatim>\<open>Exception\<close>; the library
  declares the first three as unrelated classes. \<open>OtherException\<close> stands for every
  remaining subclass of \<^verbatim>\<open>Exception\<close>.
\<close>

datatype exn =
    UnknownValueError string
  | RequestError string
  | WaitTimeoutError string
  | OtherException string

fun str :: "exn \<Rightarrow> string" where
  "str (UnknownValueError m) = m"
| "str (RequestError m) = m"
| "str (WaitTimeoutError m) = m"
| "str (OtherException m) = m"

text \<open>What \<^verbatim>\<open>recognize_google\<close> may hand back: a string, or an object of another type.\<close>

datatype pyval = PyStr string | PyNonStr

type_synonym audio = nat
type_synonym mic = nat
type_synonym thread_id = nat

text \<open>A callback is called with a string and returns, or raises.\<close>

type_synonym callback = "string \<Rightarrow> exn option"

datatype event =
    Print string
  | Acquire mic
  | Calibrate
  | Spawn thread_id
  | Join thread_id
  | Status string
  | Text string
  | SetContext "mic option"

text \<open>
  \<open>Acquire m\<close>: \<^verbatim>\<open>sr.Microphone()\<close> returned the handle \<open>m\<close>.
  \<open>Calibrate\<close>: \<^verbatim>\<open>adjust_for_ambient_noise\<close> was called.
  \<open>Spawn t\<close>: the thread \<open>t\<close> running \<^verbatim>\<open>audio_capture_thread\<close> was started.
  \<open>Join t\<close>: \<^verbatim>\<open>join(timeout=2)\<close> was called on \<open>t\<close>.
  \<open>Status s\<close>: \<^verbatim>\<open>status_callback(s)\<close> was called.
  \<open>Text s\<close>: \<^verbatim>\<open>callback(s)\<close> was called.
  \<open>SetContext v\<close>: the worker assigned \<open>v\<close> to \<^verbatim>\<open>self._microphone_context\<close>.
\<close>

type_synonym 'a res = "event list \<times> (exn + 'a)"

subsection \<open>\<^verbatim>\<open>str.lower()\<close>\<close>

text \<open>
  Strings are lists of code points below 256. On these, Python's \<^verbatim>\<open>str.lower()\<close> works
  character by character: the upper-case letters are A to Z and U+00C0 to U+00DE without
  the multiplication sign U+00D7, and each one's lower-case form is 32 code points higher.
\<close>

definition lower_char :: "char \<Rightarrow> char" where
  "lower_char c =
     (let n = (of_char c :: nat)
      in if (65 \<le> n \<and> n \<le> 90) \<or> (192 \<le> n \<and> n \<le> 222 \<and> n \<noteq> 215)
         then char_of (n + 32) else c)"

definition lower :: "string \<Rightarrow> string" where
  "lower text = map lower_char text"

text \<open>\<^verbatim>\<open>text.lower()\<close> on a value that is not a string raises \<^verbatim>\<open>AttributeError\<close>.\<close>

fun lower_method :: "pyval \<Rightarrow> exn + string" where
  "lower_method (PyStr text) = Inr (lower text)"
| "lower_method PyNonStr = Inl (OtherException ''AttributeError: lower'')"

subsection \<open>The recognizer object\<close>

text \<open>
  The fields of \<^verbatim>\<open>VoiceRecognizer\<close> that the methods read or write. \<^verbatim>\<open>self.recognizer\<close> is
  the library object behind the environment records below; \<^verbatim>\<open>self.audio_queue\<close> is
  created by the constructor and never used again.
\<close>

record recognizer =
  microphone :: "mic option"
  is_listening :: bool
  recognition_thread :: "thread_id option"
  microphone_context :: "mic option"

definition init :: recognizer where
  "init = \<lparr>microphone = None, is_listening = False, recognition_thread = None,
           microphone_context = None\<rparr>"

subsection \<open>\<^verbatim>\<open>recognize_audio\<close>\<close>

definition recognize_audio :: "(audio \<Rightarrow> exn + pyval) \<Rightarrow> audio \<Rightarrow> string option res" where
  "recognize_audio recognize_google audio_data =
     (case (case recognize_google audio_data of
              Inl e \<Rightarrow> Inl e
            | Inr text \<Rightarrow> lower_method text) of
        Inr lowered \<Rightarrow> ([], Inr (Some lowered))
      | Inl (UnknownValueError m) \<Rightarrow> ([], Inr None)
      | Inl (RequestError m) \<Rightarrow>
          ([Print (''Could not request results from speech recognition service: '' @ m)],
           Inr None)
      | Inl e \<Rightarrow> ([], Inl e))"

subsection \<open>\<^verbatim>\<open>listen_continuously\<close>\<close>

text \<open>
  What the library and the thread library do during one call of \<^verbatim>\<open>listen_continuously\<close>:
  the constructor \<^verbatim>\<open>sr.Microphone()\<close>, the \<^verbatim>\<open>__enter__\<close> and \<^verbatim>\<open>__exit__\<close> of the
  \<^verbatim>\<open>with\<close> block around the calibration, the calibration itself, and the handle of the
  thread object that \<^verbatim>\<open>threading.Thread\<close> creates. Creating and starting a thread is taken
  to succeed.
\<close>

record start_env =
  new_microphone :: "exn + mic"
  enter_microphone :: "exn option"
  adjust_for_ambient_noise :: "exn option"
  exit_microphone :: "exn option"
  new_thread :: thread_id

text \<open>
  The \<^verbatim>\<open>with self.microphone as source:\<close> block of the initialisation. When \<^verbatim>\<open>__enter__\<close>
  raises, the body does not run. Otherwise the calibration is called and \<^verbatim>\<open>__exit__\<close> runs
  whether it raised or not; an exception of \<^verbatim>\<open>__exit__\<close> replaces the body's.
\<close>

definition calibrate :: "start_env \<Rightarrow> event list \<times> exn option" where
  "calibrate env =
     (case enter_microphone env of
        Some e \<Rightarrow> ([], Some e)
      | None \<Rightarrow>
          ([Calibrate],
           case exit_microphone env of
             Some e' \<Rightarrow> Some e'
           | None \<Rightarrow> adjust_for_ambient_noise env))"

text \<open>The \<^verbatim>\<open>except Exception\<close> branch of the initialisation.\<close>

definition init_failed :: "exn \<Rightarrow> recognizer \<Rightarrow> event list \<times> recognizer" where
  "init_failed e s =
     ([Print (''Error initializing microphone: '' @ str e)], s\<lparr>is_listening := False\<rparr>)"

text \<open>The last two statements: create the thread object and start it.\<close>

definition start_thread :: "start_env \<Rightarrow> recognizer \<Rightarrow> event list \<times> recognizer" where
  "start_thread env s =
     ([Spawn (new_thread env)], s\<lparr>recognition_thread := Some (new_thread env)\<rparr>)"

text \<open>
  The two callbacks are captured by the closure \<^verbatim>\<open>audio_capture_thread\<close> that the new thread
  runs; the method itself never calls them.
\<close>

definition listen_continuously ::
  "callback \<Rightarrow> callback option \<Rightarrow> start_env \<Rightarrow> recognizer \<Rightarrow> event list \<times> recognizer" where
  "listen_continuously callback status_callback env s =
     (if is_listening s then ([], s)
      else
        let s1 = s\<lparr>is_listening := True\<rparr> in
        (case microphone s1 of
           Some m \<Rightarrow> start_thread env s1
         | None \<Rightarrow>
             (case new_microphone env of
                Inl e \<Rightarrow> init_failed e s1
              | Inr m \<Rightarrow>
                  let s2 = s1\<lparr>microphone := Some m\<rparr>;
                      ev1 = [Acquire m, Print ''Adjusting for ambient noise... Please wait.'']
                  in (case calibrate env of
                        (ev2, Some e) \<Rightarrow>
                          (ev1 @ ev2 @ fst (init_failed e s2), snd (init_failed e s2))
                      | (ev2, None) \<Rightarrow>
                          (ev1 @ ev2 @ [Print ''Ambient noise adjustment complete.'']
                             @ fst (start_thread env s2),
                           snd (start_thread env s2))))))"

subsection \<open>\<^verbatim>\<open>stop_listening\<close>\<close>

text \<open>
  \<^verbatim>\<open>join(timeout=2)\<close> returns when the thread has ended or when the two seconds are over;
  either way it returns nothing and changes no field. It is called from the thread that
  controls the recognizer, on a thread that was started.
\<close>

definition stop_listening :: "recognizer \<Rightarrow> event list \<times> recognizer" where
  "stop_listening s =
     (let s1 = s\<lparr>is_listening := False\<rparr>
      in ((case recognition_thread s1 of Some t \<Rightarrow> [Join t] | None \<Rightarrow> []),
          s1\<lparr>microphone_context := None\<rparr>))"

subsection \<open>The worker: \<^verbatim>\<open>audio_capture_thread\<close>\<close>

text \<open>
  What the worker meets while it runs. The other thread writes \<^verbatim>\<open>self.is_listening\<close>, so
  the value the worker reads at the top of its \<open>i\<close>-th pass through the loop is an input,
  \<open>flag env i\<close>. \<open>listen env k\<close> is what the \<open>k\<close>-th call of \<^verbatim>\<open>recognizer.listen\<close> does
  (a captured phrase, \<^verbatim>\<open>WaitTimeoutError\<close>, or another exception), and
  \<open>recognize_google env\<close> is the transcription provider.
\<close>

record worker_env =
  enter_context :: "exn option"
  exit_context :: "exn option"
  flag :: "nat \<Rightarrow> bool"
  listen :: "nat \<Rightarrow> exn + audio"
  recognize_google :: "audio \<Rightarrow> exn + pyval"

text \<open>\<^verbatim>\<open>if status_callback: status_callback(s)\<close>\<close>

definition call_status :: "callback option \<Rightarrow> string \<Rightarrow> unit res" where
  "call_status status_callback s =
     (case status_callback of
        None \<Rightarrow> ([], Inr ())
      | Some f \<Rightarrow> ([Status s], case f s of Some e \<Rightarrow> Inl e | None \<Rightarrow> Inr ()))"

text \<open>\<^verbatim>\<open>if text: callback(text)\<close>: \<^verbatim>\<open>None\<close> and the empty string are both false.\<close>

definition deliver :: "callback \<Rightarrow> string option \<Rightarrow> unit res" where
  "deliver callback text =
     (case text of
        None \<Rightarrow> ([], Inr ())
      | Some t \<Rightarrow>
          if t = [] then ([], Inr ())
          else ([Text t], case callback t of Some e \<Rightarrow> Inl e | None \<Rightarrow> Inr ()))"

text \<open>
  The body of the inner \<^verbatim>\<open>try\<close>, from the first status report to the callback. The third
  component is the number of calls of \<^verbatim>\<open>listen\<close> made so far.
\<close>

definition try_body ::
  "callback \<Rightarrow> callback option \<Rightarrow> worker_env \<Rightarrow> nat \<Rightarrow> event list \<times> (exn + unit) \<times> nat" where
  "try_body callback status_callback env k =
     (case call_status status_callback ''listening'' of
        (ev1, Inl e) \<Rightarrow> (ev1, Inl e, k)
      | (ev1, Inr _) \<Rightarrow>
          (case listen env k of
             Inl e \<Rightarrow> (ev1, Inl e, Suc k)
           | Inr audio \<Rightarrow>
               (case call_status status_callback ''processing'' of
                  (ev2, Inl e) \<Rightarrow> (ev1 @ ev2, Inl e, Suc k)
                | (ev2, Inr _) \<Rightarrow>
                    (case recognize_audio (recognize_google env) audio of
                       (ev3, Inl e) \<Rightarrow> (ev1 @ ev2 @ ev3, Inl e, Suc k)
                     | (ev3, Inr text) \<Rightarrow>
                         (ev1 @ ev2 @ ev3 @ fst (deliver callback text),
                          snd (deliver callback text), Suc k)))))"

text \<open>
  One pass through the body of \<^verbatim>\<open>while self.is_listening\<close>: the inner \<^verbatim>\<open>try\<close> with its
  two handlers. The second component is \<open>None\<close> when the pass ends in the loop (by falling
  through or by \<^verbatim>\<open>continue\<close>), and \<open>Some e\<close> when the exception \<open>e\<close> leaves the loop: that
  is the case when the status callback raises inside the second handler.
\<close>

definition loop_body ::
  "callback \<Rightarrow> callback option \<Rightarrow> worker_env \<Rightarrow> nat \<Rightarrow> event list \<times> exn option \<times> nat" where
  "loop_body callback status_callback env k =
     (case try_body callback status_callback env k of
        (ev, Inr _, k') \<Rightarrow> (ev, None, k')
      | (ev, Inl (WaitTimeoutError m), k') \<Rightarrow> (ev, None, k')
      | (ev, Inl e, k') \<Rightarrow>
          (case call_status status_callback (''error: '' @ str e) of
             (ev', Inl e') \<Rightarrow> (ev @ ev', Some e', k')
           | (ev', Inr _) \<Rightarrow>
               (ev @ ev' @ [Print (''Error in audio capture: '' @ str e)], None, k')))"

text \<open>
  How a run of the loop ends: the flag was read false, an exception left the loop, or the
  loop is still running after the passes that were looked at.
\<close>

datatype loop_end = FlagCleared | Escaped exn | StillRunning

text \<open>
  The loop, followed for at most \<open>n\<close> passes; \<open>i\<close> counts the passes made and \<open>k\<close> the calls
  of \<^verbatim>\<open>listen\<close>.
\<close>

fun worker_loop ::
  "nat \<Rightarrow> callback \<Rightarrow> callback option \<Rightarrow> worker_env \<Rightarrow> nat \<Rightarrow> nat \<Rightarrow> event list \<times> loop_end" where
  "worker_loop 0 callback status_callback env i k = ([], StillRunning)"
| "worker_loop (Suc n) callback status_callback env i k =
     (if \<not> flag env i then ([], FlagCleared)
      else
        (case loop_body callback status_callback env k of
           (ev, Some e, k') \<Rightarrow> (ev, Escaped e)
         | (ev, None, k') \<Rightarrow>
             (ev @ fst (worker_loop n callback status_callback env (Suc i) k'),
              snd (worker_loop n callback status_callback env (Suc i) k'))))"

text \<open>
  The whole thread function. \<^verbatim>\<open>with self.microphone as source\<close> on \<^verbatim>\<open>None\<close> raises; on a
  handle, \<^verbatim>\<open>__enter__\<close> returns the handle or raises. When the loop is left, \<^verbatim>\<open>__exit__\<close>
  runs, and an exception it raises replaces the one on its way out. The outer handler
  prints, and \<^verbatim>\<open>finally\<close> clears the context reference.
\<close>

definition audio_capture_thread ::
  "nat \<Rightarrow> callback \<Rightarrow> callback option \<Rightarrow> worker_env \<Rightarrow> recognizer \<Rightarrow> event list \<times> loop_end" where
  "audio_capture_thread n callback status_callback env s =
     (case (case microphone s of
              None \<Rightarrow> Inl (OtherException ''AttributeError: __enter__'')
            | Some m \<Rightarrow> (case enter_context env of Some e \<Rightarrow> Inl e | None \<Rightarrow> Inr m)) of
        Inl e \<Rightarrow>
          ([Print (''Error in microphone context: '' @ str e), SetContext None], Escaped e)
      | Inr source \<Rightarrow>
          (case worker_loop n callback status_callback env 0 0 of
             (ev, StillRunning) \<Rightarrow> (SetContext (Some source) # ev, StillRunning)
           | (ev, FlagCleared) \<Rightarrow>
               (case exit_context env of
                  None \<Rightarrow> (SetContext (Some source) # ev @ [SetContext None], FlagCleared)
                | Some e' \<Rightarrow>
                    (SetContext (Some source) # ev
                       @ [Print (''Error in microphone context: '' @ str e'), SetContext None],
                     Escaped e'))
           | (ev, Escaped e) \<Rightarrow>
               (let e' = (case exit_context env of None \<Rightarrow> e | Some x \<Rightarrow> x)
                in (SetContext (Some source) # ev
                      @ [Print (''Error in microphone context: '' @ str e'), SetContext None],
                    Escaped e'))))"

subsection \<open>Reading a trace\<close>

fun statuses :: "event list \<Rightarrow> string list" where
  "statuses [] = []"
| "statuses (Status s # ev) = s # statuses ev"
| "statuses (_ # ev) = statuses ev"

fun texts :: "event list \<Rightarrow> string list" where
  "texts [] = []"
| "texts (Text s # ev) = s # texts ev"
| "texts (_ # ev) = texts ev"

fun spawns :: "event list \<Rightarrow> thread_id list" where
  "spawns [] = []"
| "spawns (Spawn t # ev) = t # spawns ev"
| "spawns (_ # ev) = spawns ev"

fun acquisitions :: "event list \<Rightarrow> mic list" where
  "acquisitions [] = []"
| "acquisitions (Acquire m # ev) = m # acquisitions ev"
| "acquisitions (_ # ev) = acquisitions ev"

fun calibrations :: "event list \<Rightarrow> nat" where
  "calibrations [] = 0"
| "calibrations (Calibrate # ev) = Suc (calibrations ev)"
| "calibrations (_ # ev) = calibrations ev"

definition is_error_status :: "string \<Rightarrow> bool" where
  "is_error_status s = (take 7 s = ''error: '')"

definition valid_status :: "string \<Rightarrow> bool" where
  "valid_status s = (s = ''listening'' \<or> s = ''processing'' \<or> is_error_status s)"

subsection \<open>A recognizer over its lifetime\<close>

text \<open>
  The calls that reach one recognizer object, in the order they take effect: the two public
  methods, called by the controlling thread, and the assignments to
  \<^verbatim>\<open>self._microphone_context\<close> that a worker makes in between.
\<close>

datatype call =
    Start callback "callback option" start_env
  | Stop
  | WorkerSets "mic option"

fun step :: "call \<Rightarrow> recognizer \<Rightarrow> event list \<times> recognizer" where
  "step (Start callback status_callback env) s = listen_continuously callback status_callback env s"
| "step Stop s = stop_listening s"
| "step (WorkerSets v) s = ([SetContext v], s\<lparr>microphone_context := v\<rparr>)"

fun run :: "call list \<Rightarrow> recognizer \<Rightarrow> event list \<times> recognizer" where
  "run [] s = ([], s)"
| "run (c # cs) s = (fst (step c s) @ fst (run cs (snd (step c s))), snd (run cs (snd (step c s))))"



subsection \<open>Which workers are alive\<close>





subsection \<open>Which exceptions \<^verbatim>\<open>recognize_audio\<close> handles\<close>

fun caught :: "exn \<Rightarrow> bool" where
  "caught (UnknownValueError m) = True"
| "caught (RequestError m) = True"
| "caught _ = False"

text \<open>The status callback is absent, or returns when it is called with \<open>s\<close>.\<close>

definition status_returns :: "callback option \<Rightarrow> string \<Rightarrow> bool" where
  "status_returns status_callback s =
     (case status_callback of None \<Rightarrow> True | Some f \<Rightarrow> f s = None)"

text \<open>A call of \<^verbatim>\<open>listen\<close> ends in \<^verbatim>\<open>WaitTimeoutError\<close>.\<close>

fun times_out :: "exn + audio \<Rightarrow> bool" where
  "times_out (Inl (WaitTimeoutError m)) = True"
| "times_out _ = False"

text \<open>The initialisation of the microphone raises somewhere.\<close>

definition initialisation_raises :: "start_env \<Rightarrow> bool" where
  "initialisation_raises env =
     (case new_microphone env of
        Inl e \<Rightarrow> True
      | Inr m \<Rightarrow> snd (calibrate env) \<noteq> None)"

subsection \<open>Concrete callbacks and environments\<close>

definition quiet :: callback where
  "quiet s = None"

text \<open>A status callback that knows the two ordinary states only, and raises on any other.\<close>

definition picky_status :: callback where
  "picky_status s =
     (if s = ''listening'' \<or> s = ''processing'' then None
      else Some (OtherException ''KeyError''))"

text \<open>A status callback that raises on \<^verbatim>\<open>listening\<close> and returns on everything else.\<close>

definition deaf_status :: callback where
  "deaf_status s = (if s = ''listening'' then Some (OtherException ''widget destroyed'') else None)"

definition timed_out :: exn where
  "timed_out = WaitTimeoutError ''listening timed out while waiting for phrase to start''"

text \<open>A microphone that yields the phrases 0, 1 and 2 and then times out for ever.\<close>

definition three_phrases :: "nat \<Rightarrow> exn + audio" where
  "three_phrases k = (if k < 3 then Inr k else Inl timed_out)"

definition silence :: "nat \<Rightarrow> exn + audio" where
  "silence k = Inl timed_out"

text \<open>A microphone whose first attempt times out and whose second attempt fails.\<close>

definition flaky :: "nat \<Rightarrow> exn + audio" where
  "flaky k =
     (if k = 0 then Inl timed_out
      else if k = 1 then Inl (OtherException ''Stream closed'')
      else Inr k)"

definition unplugged :: "nat \<Rightarrow> exn + audio" where
  "unplugged k = Inl (OtherException ''Stream closed'')"

definition spoken :: "audio \<Rightarrow> exn + pyval" where
  "spoken a =
     (if a = 0 then Inr (PyStr ''Open Browser'')
      else if a = 1 then Inr (PyStr ''What Time Is It'')
      else Inr (PyStr ''Stop''))"

text \<open>A provider that returns the empty transcription for phrase 1.\<close>

definition mumbled :: "audio \<Rightarrow> exn + pyval" where
  "mumbled a =
     (if a = 0 then Inr (PyStr ''Open Browser'')
      else if a = 1 then Inr (PyStr [])
      else Inr (PyStr ''Stop''))"

definition mixed :: "audio \<Rightarrow> exn + pyval" where
  "mixed a =
     (if a = 0 then Inr (PyStr ''Open Browser'')
      else if a = 1 then Inl (UnknownValueError [])
      else if a = 2 then Inl (RequestError ''recognition connection failed'')
      else if a = 3 then Inr PyNonStr
      else Inl (OtherException ''connection reset''))"

definition session :: "(nat \<Rightarrow> exn + audio) \<Rightarrow> (audio \<Rightarrow> exn + pyval) \<Rightarrow> worker_env" where
  "session mic provider =
     \<lparr>enter_context = None, exit_context = None, flag = (\<lambda>i. True),
      listen = mic, recognize_google = provider\<rparr>"

definition working :: start_env where
  "working = \<lparr>new_microphone = Inr 7, enter_microphone = None,
              adjust_for_ambient_noise = None, exit_microphone = None, new_thread = 1\<rparr>"


definition no_device :: start_env where
  "no_device = \<lparr>new_microphone = Inl (OtherException ''No Default Input Device Available''),
                enter_microphone = None, adjust_for_ambient_noise = None,
                exit_microphone = None, new_thread = 1\<rparr>"

definition noisy :: start_env where
  "noisy = \<lparr>new_microphone = Inr 7, enter_microphone = None,
            adjust_for_ambient_noise = Some (OtherException ''Input overflowed''),
            exit_microphone = None, new_thread = 1\<rparr>"

text \<open>The recognizer after one successful start.\<close>

definition started :: recognizer where
  "started = \<lparr>microphone = Some 7, is_listening = True, recognition_thread = Some 1,
              microphone_context = None\<rparr>"

section \<open>Properties\<close>

subsection \<open>Helper lemmas\<close>

lemma lower_method_raises:
  "lower_method v = Inl e \<Longrightarrow> e = OtherException ''AttributeError: lower''"
  by (cases v) auto

lemma lower_example: "lower ''Open Browser'' = ''open browser''"
  by code_simp

subsection \<open>\<^verbatim>\<open>recognize_audio\<close>\<close>

text \<open>
  C1. For every audio segment, \<^verbatim>\<open>recognize_audio\<close> returns the provider's transcription
  in lower case when the provider returns one, returns \<^verbatim>\<open>None\<close> (and raises nothing, and
  prints nothing) when the provider raises \<^verbatim>\<open>UnknownValueError\<close>, and returns \<^verbatim>\<open>None\<close>
  after printing the message when the provider raises \<^verbatim>\<open>RequestError\<close>: a failed request
  never reaches the caller as an exception.
\<close>
theorem recognize_audio_results:
  "(provider a = Inr (PyStr t) \<longrightarrow>
      recognize_audio provider a = ([], Inr (Some (lower t))))
   \<and> (provider b = Inl (UnknownValueError m) \<longrightarrow>
      recognize_audio provider b = ([], Inr None))
   \<and> (provider c = Inl (RequestError m') \<longrightarrow>
      recognize_audio provider c =
        ([Print (''Could not request results from speech recognition service: '' @ m')],
         Inr None))"
  by (simp add: recognize_audio_def)

theorem recognize_audio_results_witness:
  "recognize_audio mixed 0 = ([], Inr (Some ''open browser''))
   \<and> recognize_audio mixed 1 = ([], Inr None)
   \<and> recognize_audio mixed 2 =
       ([Print ''Could not request results from speech recognition service: recognition connection failed''],
        Inr None)"
  using recognize_audio_results [of mixed 0 "''Open Browser''" 1 "[]" 2 "''recognition connection failed''"]
  by (simp add: mixed_def lower_example)

text \<open>
  C10. \<^verbatim>\<open>recognize_audio\<close> handles the two exception classes \<^verbatim>\<open>UnknownValueError\<close> and
  \<^verbatim>\<open>RequestError\<close> only. Any other exception of the provider leaves \<^verbatim>\<open>recognize_audio\<close>
  unchanged, without a print; so does the exception that \<^verbatim>\<open>.lower()\<close> raises on a result
  that is not a string; and \<^verbatim>\<open>None\<close> is returned only when the provider raised one of the
  two handled classes.
\<close>
theorem recognize_audio_propagates:
  "(provider a = Inl e \<and> \<not> caught e \<longrightarrow> recognize_audio provider a = ([], Inl e))
   \<and> (provider b = Inr v \<and> lower_method v = Inl e' \<longrightarrow>
        recognize_audio provider b = ([], Inl e'))
   \<and> (snd (recognize_audio provider c) = Inr None \<longrightarrow>
        (\<exists>x. provider c = Inl x \<and> caught x))"
proof (intro conjI impI)
  assume "provider a = Inl e \<and> \<not> caught e"
  then show "recognize_audio provider a = ([], Inl e)"
    by (cases e) (simp_all add: recognize_audio_def)
next
  assume h: "provider b = Inr v \<and> lower_method v = Inl e'"
  then have "e' = OtherException ''AttributeError: lower''"
    by (auto dest: lower_method_raises)
  with h show "recognize_audio provider b = ([], Inl e')"
    by (simp add: recognize_audio_def)
next
  assume h: "snd (recognize_audio provider c) = Inr None"
  show "\<exists>x. provider c = Inl x \<and> caught x"
  proof (cases "provider c")
    case (Inl x)
    with h show ?thesis by (cases x) (simp_all add: recognize_audio_def)
  next
    case (Inr v)
    with h show ?thesis by (cases v) (simp_all add: recognize_audio_def)
  qed
qed

theorem recognize_audio_propagates_witness:
  "recognize_audio mixed 4 = ([], Inl (OtherException ''connection reset''))
   \<and> recognize_audio mixed 3 = ([], Inl (OtherException ''AttributeError: lower''))
   \<and> (\<exists>x. mixed 1 = Inl x \<and> caught x)"
proof -
  have h1: "mixed 4 = Inl (OtherException ''connection reset'')
            \<and> \<not> caught (OtherException ''connection reset'')"
    by (simp add: mixed_def)
  have h2: "mixed 3 = Inr PyNonStr
            \<and> lower_method PyNonStr = Inl (OtherException ''AttributeError: lower'')"
    by (simp add: mixed_def)
  have h3: "snd (recognize_audio mixed 1) = Inr None"
    by (simp add: mixed_def recognize_audio_def)
  show ?thesis
    using h1 h2 h3 recognize_audio_propagates [of mixed 4 "OtherException ''connection reset''"
        3 PyNonStr "OtherException ''AttributeError: lower''" 1]
    by blast
qed

subsection \<open>\<^verbatim>\<open>listen_continuously\<close> and \<^verbatim>\<open>stop_listening\<close>\<close>










text \<open>
  C5. When \<^verbatim>\<open>listen_continuously\<close> has to set up the microphone and the constructor, the
  \<^verbatim>\<open>with\<close> block or the calibration raises, the call returns with \<^verbatim>\<open>is_listening\<close> false
  again, without having started a thread or replaced \<^verbatim>\<open>recognition_thread\<close>, and the last
  thing it did was to print the error message.
\<close>
theorem start_aborted:
  assumes "\<not> is_listening s" and "microphone s = None" and "initialisation_raises env"
  shows "\<not> is_listening (snd (listen_continuously cb scb env s))
       \<and> spawns (fst (listen_continuously cb scb env s)) = []
       \<and> recognition_thread (snd (listen_continuously cb scb env s)) = recognition_thread s
       \<and> (\<exists>e. last (fst (listen_continuously cb scb env s))
                 = Print (''Error initializing microphone: '' @ str e))"
  using assms
  by (auto simp add: listen_continuously_def initialisation_raises_def calibrate_def
      init_failed_def Let_def split: sum.splits option.splits)

theorem start_aborted_witness:
  "\<not> is_listening init \<and> microphone init = None \<and> initialisation_raises noisy
   \<and> listen_continuously quiet None noisy init =
       ([Acquire 7, Print ''Adjusting for ambient noise... Please wait.'', Calibrate,
         Print ''Error initializing microphone: Input overflowed''],
        init\<lparr>microphone := Some 7\<rparr>)
   \<and> \<not> is_listening (snd (listen_continuously quiet None noisy init))
   \<and> spawns (fst (listen_continuously quiet None noisy init)) = []"
proof -
  have h1: "\<not> is_listening init" and h2: "microphone init = None"
    by (simp_all add: init_def)
  have h3: "initialisation_raises noisy"
    by (simp add: initialisation_raises_def noisy_def calibrate_def)
  have "listen_continuously quiet None noisy init =
       ([Acquire 7, Print ''Adjusting for ambient noise... Please wait.'', Calibrate,
         Print ''Error initializing microphone: Input overflowed''],
        init\<lparr>microphone := Some 7\<rparr>)"
    by (simp add: listen_continuously_def init_def noisy_def calibrate_def init_failed_def)
  with h1 h2 h3 start_aborted [OF h1 h2 h3, of quiet None] show ?thesis
    by simp
qed

text \<open>
  C7. \<^verbatim>\<open>stop_listening\<close> is idempotent on the recognizer's fields. Called while
  \<^verbatim>\<open>is_listening\<close> is false it changes nothing but the context reference, which it clears;
  with no worker inside its capture context (the reference is \<^verbatim>\<open>None\<close> already, as after
  construction and after every earlier stop) it leaves the recognizer as it was. Its only
  effect to the outside is the join of the last thread, if there was one.
\<close>
theorem stop_when_idle:
  "snd (stop_listening (snd (stop_listening s))) = snd (stop_listening s)
   \<and> (\<not> is_listening s \<longrightarrow> snd (stop_listening s) = s\<lparr>microphone_context := None\<rparr>)
   \<and> (\<not> is_listening s \<and> microphone_context s = None \<longrightarrow> snd (stop_listening s) = s)
   \<and> fst (stop_listening s) = (case recognition_thread s of Some t \<Rightarrow> [Join t] | None \<Rightarrow> [])
   \<and> stop_listening init = ([], init)"
  by (simp add: stop_listening_def init_def)

theorem stop_when_idle_witness:
  "\<not> is_listening init \<and> microphone_context init = None \<and> snd (stop_listening init) = init
   \<and> snd (stop_listening (snd (stop_listening started))) = snd (stop_listening started)"
proof -
  have "\<not> is_listening init \<and> microphone_context init = None"
    by (simp add: init_def)
  with stop_when_idle [of init] stop_when_idle [of started] show ?thesis
    by simp
qed


lemma acquisitions_append: "acquisitions (xs @ ys) = acquisitions xs @ acquisitions ys"
  by (induction xs rule: acquisitions.induct) simp_all

lemma calibrations_append: "calibrations (xs @ ys) = calibrations xs + calibrations ys"
  by (induction xs rule: calibrations.induct) simp_all

lemma step_keeps_microphone:
  assumes "microphone s = Some m"
  shows "microphone (snd (step c s)) = Some m
       \<and> acquisitions (fst (step c s)) = [] \<and> calibrations (fst (step c s)) = 0"
proof (cases c)
  case (Start cb scb env)
  with assms show ?thesis
    by (simp add: listen_continuously_def start_thread_def)
next
  case Stop
  with assms show ?thesis
    by (simp add: stop_listening_def split: option.splits)
next
  case (WorkerSets v)
  with assms show ?thesis by simp
qed

lemma run_keeps_microphone:
  "microphone s = Some m \<Longrightarrow>
     microphone (snd (run cs s)) = Some m
     \<and> acquisitions (fst (run cs s)) = [] \<and> calibrations (fst (run cs s)) = 0"
proof (induction cs arbitrary: s)
  case Nil
  then show ?case by simp
next
  case (Cons c cs)
  from step_keeps_microphone [OF Cons.prems, of c]
  have a: "microphone (snd (step c s)) = Some m"
    and b: "acquisitions (fst (step c s)) = []" and c: "calibrations (fst (step c s)) = 0"
    by simp_all
  from Cons.IH [OF a] b c show ?case
    by (simp add: acquisitions_append calibrations_append)
qed

lemma step_without_microphone:
  assumes "microphone s = None"
  shows "(microphone (snd (step c s)) = None
            \<and> acquisitions (fst (step c s)) = [] \<and> calibrations (fst (step c s)) = 0)
       \<or> (microphone (snd (step c s)) \<noteq> None
            \<and> length (acquisitions (fst (step c s))) \<le> 1 \<and> calibrations (fst (step c s)) \<le> 1)"
proof (cases c)
  case (Start cb scb env)
  with assms show ?thesis
    by (auto simp add: listen_continuously_def start_thread_def init_failed_def calibrate_def
        Let_def split: sum.splits option.splits)
next
  case Stop
  with assms show ?thesis
    by (simp add: stop_listening_def split: option.splits)
next
  case (WorkerSets v)
  with assms show ?thesis by simp
qed

lemma run_at_most_once:
  "microphone s = None \<Longrightarrow>
     length (acquisitions (fst (run cs s))) \<le> 1 \<and> calibrations (fst (run cs s)) \<le> 1"
proof (induction cs arbitrary: s)
  case Nil
  then show ?case by simp
next
  case (Cons c cs)
  from step_without_microphone [OF Cons.prems, of c] show ?case
  proof
    assume h: "microphone (snd (step c s)) = None
            \<and> acquisitions (fst (step c s)) = [] \<and> calibrations (fst (step c s)) = 0"
    with Cons.IH [of "snd (step c s)"] show ?thesis
      by (simp add: acquisitions_append calibrations_append)
  next
    assume h: "microphone (snd (step c s)) \<noteq> None
            \<and> length (acquisitions (fst (step c s))) \<le> 1 \<and> calibrations (fst (step c s)) \<le> 1"
    then obtain m where "microphone (snd (step c s)) = Some m" by auto
    from run_keeps_microphone [OF this, of cs] h show ?thesis
      by (simp add: acquisitions_append calibrations_append)
  qed
qed

text \<open>
  C6. Over any sequence of starts, stops and worker assignments on a new recognizer, whatever
  the library does, \<^verbatim>\<open>sr.Microphone()\<close> returns a handle at most once and the calibration is
  called at most once. Once the recognizer holds a handle it keeps that handle, and no later
  call acquires or calibrates. In particular a stop followed by a start joins the old thread,
  starts a new one, and the new worker enters the capture context of the same handle.
\<close>
theorem microphone_set_up_once:
  "length (acquisitions (fst (run cs init))) \<le> 1
   \<and> calibrations (fst (run cs init)) \<le> 1
   \<and> (microphone s = Some m \<longrightarrow>
        microphone (snd (run cs s)) = Some m
        \<and> acquisitions (fst (run cs s)) = [] \<and> calibrations (fst (run cs s)) = 0)
   \<and> (microphone s = Some m \<longrightarrow>
        run [Stop, Start cb scb env] s =
          (fst (stop_listening s) @ [Spawn (new_thread env)],
           s\<lparr>is_listening := True, recognition_thread := Some (new_thread env),
              microphone_context := None\<rparr>))
   \<and> (microphone s = Some m \<and> enter_context wenv = None \<longrightarrow>
        hd (fst (audio_capture_thread n cb scb wenv (snd (run [Stop, Start cb scb env] s))))
          = SetContext (Some m))"
proof (intro conjI impI)
  have "microphone init = None" by (simp add: init_def)
  from run_at_most_once [OF this, of cs]
  show "length (acquisitions (fst (run cs init))) \<le> 1"
    and "calibrations (fst (run cs init)) \<le> 1"
    by simp_all
next
  assume "microphone s = Some m"
  from run_keeps_microphone [OF this, of cs]
  show "microphone (snd (run cs s)) = Some m"
    and "acquisitions (fst (run cs s)) = []" and "calibrations (fst (run cs s)) = 0"
    by simp_all
next
  assume "microphone s = Some m"
  then show "run [Stop, Start cb scb env] s =
          (fst (stop_listening s) @ [Spawn (new_thread env)],
           s\<lparr>is_listening := True, recognition_thread := Some (new_thread env),
              microphone_context := None\<rparr>)"
    by (simp add: stop_listening_def listen_continuously_def start_thread_def)
next
  assume h: "microphone s = Some m \<and> enter_context wenv = None"
  from h run_keeps_microphone [of s m "[Stop, Start cb scb env]"]
  have "microphone (snd (run [Stop, Start cb scb env] s)) = Some m" by blast
  with h show "hd (fst (audio_capture_thread n cb scb wenv (snd (run [Stop, Start cb scb env] s))))
          = SetContext (Some m)"
    by (simp add: audio_capture_thread_def split: prod.splits loop_end.splits option.splits)
qed

theorem microphone_set_up_once_witness:
  "microphone started = Some 7
   \<and> enter_context (session silence spoken) = None
   \<and> acquisitions (fst (run [Start quiet None no_device, Start quiet None working, Stop,
                               Start quiet None working] init)) = [7]
   \<and> calibrations (fst (run [Start quiet None no_device, Start quiet None working, Stop,
                               Start quiet None working] init)) = 1
   \<and> run [Stop, Start quiet None working] started = ([Join 1, Spawn 1], started)
   \<and> hd (fst (audio_capture_thread 2 quiet None (session silence spoken)
               (snd (run [Stop, Start quiet None working] started)))) = SetContext (Some 7)"
proof -
  have h1: "microphone started = Some 7"
    by (simp add: started_def)
  have h2: "enter_context (session silence spoken) = None"
    by (simp add: session_def)
  have h3: "acquisitions (fst (run [Start quiet None no_device, Start quiet None working, Stop,
                               Start quiet None working] init)) = [7]"
    by (simp add: listen_continuously_def stop_listening_def init_def no_device_def working_def
        calibrate_def init_failed_def start_thread_def)
  have h4: "calibrations (fst (run [Start quiet None no_device, Start quiet None working, Stop,
                               Start quiet None working] init)) = 1"
    by (simp add: listen_continuously_def stop_listening_def init_def no_device_def working_def
        calibrate_def init_failed_def start_thread_def)
  note T = microphone_set_up_once [of "[Stop, Start quiet None working]" started 7 quiet None
      working "session silence spoken" 2]
  from T h1 have t4: "run [Stop, Start quiet None working] started =
          (fst (stop_listening started) @ [Spawn (new_thread working)],
           started\<lparr>is_listening := True, recognition_thread := Some (new_thread working),
              microphone_context := None\<rparr>)"
    by blast
  have e: "(fst (stop_listening started) @ [Spawn (new_thread working)],
           started\<lparr>is_listening := True, recognition_thread := Some (new_thread working),
              microphone_context := None\<rparr>) = ([Join 1, Spawn 1], started)"
    by (simp add: stop_listening_def started_def working_def)
  from T h1 h2 have t5: "hd (fst (audio_capture_thread 2 quiet None (session silence spoken)
               (snd (run [Stop, Start quiet None working] started)))) = SetContext (Some 7)"
    by blast
  from h1 h2 h3 h4 trans [OF t4 e] t5 show ?thesis
    by blast
qed

subsection \<open>The worker\<close>

lemma texts_append: "texts (xs @ ys) = texts xs @ texts ys"
  by (induction xs rule: texts.induct) simp_all

lemma statuses_append: "statuses (xs @ ys) = statuses xs @ statuses ys"
  by (induction xs rule: statuses.induct) simp_all

lemma lower_Nil: "lower t = [] \<longleftrightarrow> t = []"
  by (simp add: lower_def)

lemma call_status_events:
  "fst (call_status scb x) = (case scb of None \<Rightarrow> [] | Some f \<Rightarrow> [Status x])"
  by (cases scb) (simp_all add: call_status_def)

lemma call_status_returned:
  "status_returns scb x \<Longrightarrow>
     call_status scb x = ((case scb of None \<Rightarrow> [] | Some f \<Rightarrow> [Status x]), Inr ())"
  by (cases scb) (simp_all add: call_status_def status_returns_def)

lemma call_status_raised:
  "\<not> status_returns scb x \<Longrightarrow> \<exists>f e. scb = Some f \<and> f x = Some e
      \<and> call_status scb x = ([Status x], Inl e)"
  by (cases scb) (auto simp add: call_status_def status_returns_def)

lemma texts_call_status: "texts (fst (call_status scb x)) = []"
  by (cases scb) (simp_all add: call_status_def)

lemma recognize_audio_silent:
  "texts (fst (recognize_audio p a)) = [] \<and> statuses (fst (recognize_audio p a)) = []"
  by (simp add: recognize_audio_def split: sum.splits exn.splits)

lemma texts_deliver:
  "texts (fst (deliver cb r)) = (case r of None \<Rightarrow> [] | Some t \<Rightarrow> if t = [] then [] else [t])"
  by (simp add: deliver_def split: option.splits)

lemma statuses_deliver: "statuses (fst (deliver cb r)) = []"
  by (simp add: deliver_def split: option.splits)

text \<open>The inner try block, when both status reports return and a phrase was captured.\<close>

lemma try_body_captured:
  assumes "status_returns scb ''listening''" and "status_returns scb ''processing''"
    and "listen env k = Inr a"
  shows "try_body cb scb env k =
     (fst (call_status scb ''listening'') @ fst (call_status scb ''processing'')
        @ fst (recognize_audio (recognize_google env) a)
        @ (case snd (recognize_audio (recognize_google env) a) of
             Inl e \<Rightarrow> [] | Inr r \<Rightarrow> fst (deliver cb r)),
      (case snd (recognize_audio (recognize_google env) a) of
         Inl e \<Rightarrow> Inl e | Inr r \<Rightarrow> snd (deliver cb r)),
      Suc k)"
  using assms
  by (cases "recognize_audio (recognize_google env) a")
    (simp add: try_body_def call_status_returned split: sum.splits)

lemma try_body_timeout:
  assumes "status_returns scb ''listening''" and "listen env k = Inl e"
  shows "try_body cb scb env k = (fst (call_status scb ''listening''), Inl e, Suc k)"
  using assms by (simp add: try_body_def call_status_returned)

lemma loop_body_parts:
  "snd (snd (loop_body cb scb env k)) = snd (snd (try_body cb scb env k))
   \<and> texts (fst (loop_body cb scb env k)) = texts (fst (try_body cb scb env k))"
proof (cases "try_body cb scb env k")
  case (fields ev r k')
  show ?thesis
  proof (cases r)
    case (Inl e)
    obtain ev' r' where c: "call_status scb (''error: '' @ str e) = (ev', r')"
      by (cases "call_status scb (''error: '' @ str e)")
    with texts_call_status [of scb "''error: '' @ str e"] have "texts ev' = []" by simp
    with fields Inl c show ?thesis
      by (cases e; cases r') (simp_all add: loop_body_def texts_append)
  next
    case (Inr u)
    with fields show ?thesis by (simp add: loop_body_def)
  qed
qed

lemma loop_body_continues:
  assumes "\<forall>x. is_error_status x \<longrightarrow> status_returns scb x"
  shows "fst (snd (loop_body cb scb env k)) = None"
proof (cases "try_body cb scb env k")
  case (fields ev r k')
  show ?thesis
  proof (cases r)
    case (Inl e)
    have "is_error_status (''error: '' @ str e)"
      by (simp add: is_error_status_def)
    with assms have "status_returns scb (''error: '' @ str e)" by blast
    from call_status_returned [OF this] fields Inl show ?thesis
      by (cases e) (simp_all add: loop_body_def)
  next
    case (Inr u)
    with fields show ?thesis by (simp add: loop_body_def)
  qed
qed


lemma pass_captured:
  assumes "status_returns scb ''listening''" and "status_returns scb ''processing''"
    and "listen env k = Inr a"
    and "snd (recognize_audio (recognize_google env) a) = Inr r"
  shows "texts (fst (loop_body cb scb env k))
           = (case r of None \<Rightarrow> [] | Some t \<Rightarrow> if t = [] then [] else [t])"
    and "snd (snd (loop_body cb scb env k)) = Suc k"
  using assms loop_body_parts [of cb scb env k] try_body_captured [of scb env k a cb]
  by (simp_all add: texts_append texts_call_status recognize_audio_silent texts_deliver)

lemma pass_without_phrase:
  assumes "status_returns scb ''listening''" and "listen env k = Inl e"
  shows "texts (fst (loop_body cb scb env k)) = []"
    and "snd (snd (loop_body cb scb env k)) = Suc k"
  using assms loop_body_parts [of cb scb env k] try_body_timeout [of scb env k e cb]
  by (simp_all add: texts_call_status)

lemma worker_loop_step:
  assumes "flag env i" and "fst (snd (loop_body cb scb env k)) = None"
  shows "worker_loop (Suc n) cb scb env i k =
     (fst (loop_body cb scb env k)
        @ fst (worker_loop n cb scb env (Suc i) (snd (snd (loop_body cb scb env k)))),
      snd (worker_loop n cb scb env (Suc i) (snd (snd (loop_body cb scb env k)))))"
  using assms by (cases "loop_body cb scb env k") simp

text \<open>
  A microphone that yields the phrases \<open>a 0\<close>, ..., \<open>a (K - 1)\<close> and then times out on every
  attempt, a provider that returns a string for each of them, and a status callback that
  returns: the callback gets the non-empty lower-cased transcriptions, in order.
\<close>

lemma phrases_then_silence:
  assumes st: "\<forall>x. status_returns scb x"
    and ph: "\<forall>j<K. listen env j = Inr (a j) \<and> recognize_google env (a j) = Inr (PyStr (t j))"
    and si: "\<forall>j\<ge>K. times_out (listen env j)"
    and fl: "\<forall>j<K. flag env j"
  shows "K - k \<le> n \<Longrightarrow>
     texts (fst (worker_loop n cb scb env k k))
       = filter (\<lambda>x. x \<noteq> []) (map (\<lambda>j. lower (t j)) [k..<K])"
proof (induction n arbitrary: k)
  case 0
  then show ?case by simp
next
  case (Suc n)
  from st have cont: "fst (snd (loop_body cb scb env k)) = None"
    by (simp add: loop_body_continues)
  from st have s1: "status_returns scb ''listening''" and s2: "status_returns scb ''processing''"
    by simp_all
  show ?case
  proof (cases "k < K")
    case True
    with ph have l: "listen env k = Inr (a k)"
      and r: "snd (recognize_audio (recognize_google env) (a k)) = Inr (Some (lower (t k)))"
      by (simp_all add: recognize_audio_def)
    from True fl have f: "flag env k" by simp
    from True Suc.prems have "K - Suc k \<le> n" by simp
    from Suc.IH [OF this] pass_captured [OF s1 s2 l r, of cb] True
    show ?thesis
      unfolding worker_loop_step [OF f cont]
      by (simp add: texts_append upt_conv_Cons del: worker_loop.simps)
  next
    case ge: False
    show ?thesis
    proof (cases "flag env k")
      case True
      from ge si have "times_out (listen env k)" by simp
      then obtain e where l: "listen env k = Inl e"
        by (cases "listen env k") simp_all
      from ge have "K - Suc k \<le> n" by simp
      from Suc.IH [OF this] pass_without_phrase [OF s1 l, of cb] ge
      show ?thesis
        unfolding worker_loop_step [OF True cont]
        by (simp add: texts_append del: worker_loop.simps)
    next
      case False
      with ge show ?thesis by simp
    qed
  qed
qed

lemma texts_of_thread:
  assumes "microphone s = Some m" and "enter_context env = None"
  shows "texts (fst (audio_capture_thread n cb scb env s))
           = texts (fst (worker_loop n cb scb env 0 0))"
  using assms
  by (cases "worker_loop n cb scb env 0 0")
    (simp add: audio_capture_thread_def texts_append Let_def
      split: loop_end.splits option.splits)

lemma lower_examples:
  "lower ''Open Browser'' = ''open browser''"
  "lower ''What Time Is It'' = ''what time is it''"
  "lower ''Stop'' = ''stop''"
  by code_simp+

text \<open>
  C3, as the code has it. The worker runs on a microphone that yields three phrases and then
  times out on every attempt; the provider returns a non-empty transcription for each
  phrase; the status callback is absent or returns from every call; the flag is read true
  in the first three passes at least. Then, however many passes beyond three the loop is
  followed, the text callback has been called exactly three times, with the three
  transcriptions in lower case, in the order of capture. (Without the condition that the
  transcriptions are non-empty the statement fails, see below.)
\<close>
theorem three_phrases_delivered:
  assumes "microphone s = Some m" and "enter_context env = None"
    and "\<forall>x. status_returns scb x"
    and "\<forall>i<3. flag env i" and "3 \<le> n"
    and "listen env 0 = Inr a0" and "listen env 1 = Inr a1" and "listen env 2 = Inr a2"
    and "\<forall>k\<ge>3. times_out (listen env k)"
    and "recognize_google env a0 = Inr (PyStr t0)" and "t0 \<noteq> []"
    and "recognize_google env a1 = Inr (PyStr t1)" and "t1 \<noteq> []"
    and "recognize_google env a2 = Inr (PyStr t2)" and "t2 \<noteq> []"
  shows "texts (fst (audio_capture_thread n cb scb env s)) = [lower t0, lower t1, lower t2]"
proof -
  have three: "j < 3 \<longleftrightarrow> j = 0 \<or> j = 1 \<or> j = 2" for j :: nat
    by auto
  have ph: "\<forall>j<3. listen env j = Inr ([a0, a1, a2] ! j)
              \<and> recognize_google env ([a0, a1, a2] ! j) = Inr (PyStr ([t0, t1, t2] ! j))"
    using assms by (auto simp add: three)
  have "3 - 0 \<le> n" using assms by simp
  from phrases_then_silence [OF assms(3) ph assms(9) assms(4) this, of cb]
  have "texts (fst (worker_loop n cb scb env 0 0))
          = filter (\<lambda>x. x \<noteq> []) (map (\<lambda>j. lower ([t0, t1, t2] ! j)) [0..<3])" .
  also have "[0..<3] = [0, 1, 2]"
    by (simp add: upt_rec)
  finally show ?thesis
    using assms by (simp add: texts_of_thread lower_Nil)
qed

theorem three_phrases_delivered_witness:
  "texts (fst (audio_capture_thread 5 quiet (Some quiet) (session three_phrases spoken) started))
     = [''open browser'', ''what time is it'', ''stop'']"
proof -
  have h1: "microphone started = Some 7"
    by (simp add: started_def)
  have h2: "enter_context (session three_phrases spoken) = None"
    and h4: "\<forall>i<3. flag (session three_phrases spoken) i"
    and h6: "listen (session three_phrases spoken) 0 = Inr 0"
    and h7: "listen (session three_phrases spoken) 1 = Inr 1"
    and h8: "listen (session three_phrases spoken) 2 = Inr 2"
    and h9: "\<forall>k\<ge>3. times_out (listen (session three_phrases spoken) k)"
    and h10: "recognize_google (session three_phrases spoken) 0 = Inr (PyStr ''Open Browser'')"
    and h12: "recognize_google (session three_phrases spoken) 1 = Inr (PyStr ''What Time Is It'')"
    and h14: "recognize_google (session three_phrases spoken) 2 = Inr (PyStr ''Stop'')"
    by (simp_all add: session_def three_phrases_def spoken_def timed_out_def)
  have h3: "\<forall>x. status_returns (Some quiet) x"
    by (simp add: status_returns_def quiet_def)
  have h5: "(3::nat) \<le> 5" and h11: "''Open Browser'' \<noteq> []"
    and h13: "''What Time Is It'' \<noteq> []" and h15: "''Stop'' \<noteq> []"
    by simp_all
  from three_phrases_delivered [OF h1 h2 h3 h4 h5 h6 h7 h8 h9 h10 h11 h12 h13 h14 h15, of quiet]
  show ?thesis
    by (simp only: lower_examples)
qed

text \<open>
  C3 as stated fails: when the provider returns the empty transcription for the second of
  the three phrases, the text callback is called twice only.
\<close>
theorem empty_transcription_counterexample:
  "texts (fst (audio_capture_thread 5 quiet None (session three_phrases mumbled) started))
     = [''open browser'', ''stop'']"
  by code_simp

text \<open>
  C4, as the code has it. In a pass of the loop that reaches the recognition (both status
  reports returned, a phrase was captured) and in which \<^verbatim>\<open>recognize_audio\<close> returns, the
  text callback is called exactly once, with exactly the result, when the result is a
  non-empty string; it is not called when the result is \<^verbatim>\<open>None\<close> or the empty string.
\<close>
theorem result_handed_on:
  assumes "status_returns scb ''listening''" and "status_returns scb ''processing''"
    and "listen env k = Inr a"
    and "snd (recognize_audio (recognize_google env) a) = Inr r"
  shows "texts (fst (loop_body cb scb env k))
           = (case r of None \<Rightarrow> [] | Some t \<Rightarrow> if t = [] then [] else [t])"
  using assms by (rule pass_captured)

theorem result_handed_on_witness:
  "texts (fst (loop_body quiet (Some quiet) (session three_phrases spoken) 1))
     = [''what time is it'']"
proof -
  have h1: "status_returns (Some quiet) ''listening''"
    and h2: "status_returns (Some quiet) ''processing''"
    by (simp_all add: status_returns_def quiet_def)
  have h3: "listen (session three_phrases spoken) 1 = Inr 1"
    by (simp add: session_def three_phrases_def)
  have h4: "snd (recognize_audio (recognize_google (session three_phrases spoken)) 1)
              = Inr (Some ''what time is it'')"
    by (simp add: session_def spoken_def recognize_audio_def lower_examples)
  from result_handed_on [OF h1 h2 h3 h4, of quiet] show ?thesis
    by simp
qed

text \<open>
  C4 as stated fails: \<^verbatim>\<open>recognize_audio\<close> returns the empty string, which is not \<^verbatim>\<open>None\<close>,
  and the text callback is not called in that pass.
\<close>
theorem empty_result_counterexample:
  "snd (recognize_audio (recognize_google (session three_phrases mumbled)) 1) = Inr (Some [])
   \<and> listen (session three_phrases mumbled) 1 = Inr 1
   \<and> texts (fst (loop_body quiet None (session three_phrases mumbled) 1)) = []"
  by code_simp

lemma statuses_call_status:
  "statuses (fst (call_status scb x)) = (case scb of None \<Rightarrow> [] | Some f \<Rightarrow> [x])"
  by (cases scb) (simp_all add: call_status_def)

lemma statuses_try_body:
  "set (statuses (fst (try_body cb scb env k))) \<subseteq> {''listening'', ''processing''}"
proof (cases "status_returns scb ''listening''")
  case l: True
  show ?thesis
  proof (cases "listen env k")
    case (Inl e)
    from try_body_timeout [OF l this, of cb] show ?thesis
      by (auto simp add: statuses_call_status split: option.splits)
  next
    case (Inr a)
    show ?thesis
    proof (cases "status_returns scb ''processing''")
      case True
      from try_body_captured [OF l True Inr, of cb] show ?thesis
        by (auto simp add: statuses_append statuses_call_status recognize_audio_silent
            statuses_deliver split: option.splits sum.splits)
    next
      case False
      from call_status_raised [OF False] call_status_returned [OF l] Inr show ?thesis
        by (auto simp add: try_body_def statuses_append)
    qed
  qed
next
  case False
  from call_status_raised [OF False] show ?thesis
    by (auto simp add: try_body_def)
qed

lemma statuses_loop_body:
  "\<forall>x \<in> set (statuses (fst (loop_body cb scb env k))). valid_status x"
proof (cases "try_body cb scb env k")
  case (fields ev r k')
  with statuses_try_body [of cb scb env k]
  have ev: "\<forall>x \<in> set (statuses ev). valid_status x"
    by (auto simp add: valid_status_def)
  show ?thesis
  proof (cases r)
    case (Inl e)
    obtain ev' r' where c: "call_status scb (''error: '' @ str e) = (ev', r')"
      by (cases "call_status scb (''error: '' @ str e)")
    with statuses_call_status [of scb "''error: '' @ str e"]
    have "\<forall>x \<in> set (statuses ev'). valid_status x"
      by (auto simp add: valid_status_def is_error_status_def split: option.splits)
    with ev fields Inl c show ?thesis
      by (cases e; cases r') (auto simp add: loop_body_def statuses_append)
  next
    case (Inr u)
    with ev fields show ?thesis by (simp add: loop_body_def)
  qed
qed

lemma statuses_worker_loop:
  "\<forall>x \<in> set (statuses (fst (worker_loop n cb scb env i k))). valid_status x"
proof (induction n arbitrary: i k)
  case 0
  then show ?case by simp
next
  case (Suc n)
  obtain ev r k' where b: "loop_body cb scb env k = (ev, r, k')"
    by (cases "loop_body cb scb env k")
  with statuses_loop_body [of cb scb env k]
  have "\<forall>x \<in> set (statuses ev). valid_status x" by simp
  with b Suc.IH [of "Suc i" k'] show ?case
    by (cases r) (auto simp add: statuses_append)
qed

lemma statuses_of_thread:
  "set (statuses (fst (audio_capture_thread n cb scb env s)))
     \<subseteq> set (statuses (fst (worker_loop n cb scb env 0 0)))"
  by (cases "worker_loop n cb scb env 0 0")
    (auto simp add: audio_capture_thread_def statuses_append Let_def
      split: loop_end.splits option.splits)

lemma pass_statuses:
  assumes "status_returns (Some f) ''listening''" and "status_returns (Some f) ''processing''"
    and "listen env k = Inr a"
  shows "filter (\<lambda>x. \<not> is_error_status x) (statuses (fst (loop_body cb (Some f) env k)))
           = [''listening'', ''processing'']"
proof (cases "try_body cb (Some f) env k")
  case (fields ev r k')
  with try_body_captured [OF assms, of cb]
  have ev: "statuses ev = [''listening'', ''processing'']"
    by (auto simp add: statuses_append statuses_call_status recognize_audio_silent
        statuses_deliver split: sum.splits)
  have ne: "\<not> is_error_status ''listening''" "\<not> is_error_status ''processing''"
    by (simp_all add: is_error_status_def)
  show ?thesis
  proof (cases r)
    case (Inl e)
    have er: "is_error_status (''error: '' @ str e)"
      by (simp add: is_error_status_def)
    from fields Inl ev ne er show ?thesis
      by (cases e; cases "f (''error: '' @ str e)")
        (simp_all add: loop_body_def call_status_def statuses_append)
  next
    case (Inr u)
    with fields ev ne show ?thesis by (simp add: loop_body_def)
  qed
qed

lemma pass_timed_out:
  assumes "status_returns scb ''listening''" and "times_out (listen env k)"
  shows "loop_body cb scb env k
           = ((case scb of None \<Rightarrow> [] | Some f \<Rightarrow> [Status ''listening'']), None, Suc k)"
proof -
  from assms(2) obtain m where "listen env k = Inl (WaitTimeoutError m)"
    by (cases "listen env k" rule: times_out.cases) simp_all
  from try_body_timeout [OF assms(1) this, of cb] show ?thesis
    by (simp add: loop_body_def call_status_events)
qed

lemma pass_unintelligible:
  assumes "listen env k = Inr a" and "recognize_google env a = Inl (UnknownValueError m)"
  shows "texts (fst (loop_body cb scb env k)) = []"
proof -
  have r: "recognize_audio (recognize_google env) a = ([], Inr None)"
    using assms(2) by (simp add: recognize_audio_def)
  have "texts (fst (try_body cb scb env k)) = []"
  proof (cases "status_returns scb ''listening''")
    case l: True
    show ?thesis
    proof (cases "status_returns scb ''processing''")
      case True
      from try_body_captured [OF l True assms(1), of cb] r show ?thesis
        by (simp add: texts_append texts_call_status deliver_def)
    next
      case False
      from call_status_raised [OF False] call_status_returned [OF l] assms(1) show ?thesis
        by (auto simp add: try_body_def texts_append split: option.splits)
    qed
  next
    case False
    from call_status_raised [OF False] show ?thesis
      by (auto simp add: try_body_def)
  qed
  then show ?thesis
    by (simp add: loop_body_parts)
qed

text \<open>
  C8, as the code has it. Every string the worker passes to the status callback is
  \<^verbatim>\<open>listening\<close>, \<^verbatim>\<open>processing\<close> or starts with \<^verbatim>\<open>error: \<close>. In a pass in which a phrase is
  captured and the status callback returns from both reports, the callback sees
  \<^verbatim>\<open>listening\<close> and then \<^verbatim>\<open>processing\<close>, once each and in that order (an error report may
  follow). In a pass whose capture times out it sees \<^verbatim>\<open>listening\<close> only. In a pass whose
  phrase the provider finds unintelligible the text callback is not called.
\<close>
theorem status_reports:
  "(\<forall>x \<in> set (statuses (fst (audio_capture_thread n cb scb env s))). valid_status x)
   \<and> (status_returns (Some f) ''listening'' \<and> status_returns (Some f) ''processing''
        \<and> listen env k = Inr a \<longrightarrow>
      filter (\<lambda>x. \<not> is_error_status x) (statuses (fst (loop_body cb (Some f) env k)))
        = [''listening'', ''processing''])
   \<and> (status_returns (Some f) ''listening'' \<and> times_out (listen env k') \<longrightarrow>
      statuses (fst (loop_body cb (Some f) env k')) = [''listening''])
   \<and> (listen env j = Inr b \<and> recognize_google env b = Inl (UnknownValueError m) \<longrightarrow>
      texts (fst (loop_body cb scb env j)) = [])"
proof (intro conjI impI)
  from statuses_of_thread [of n cb scb env s] statuses_worker_loop [of n cb scb env 0 0]
  show "\<forall>x \<in> set (statuses (fst (audio_capture_thread n cb scb env s))). valid_status x"
    by blast
next
  assume "status_returns (Some f) ''listening'' \<and> status_returns (Some f) ''processing''
        \<and> listen env k = Inr a"
  then show "filter (\<lambda>x. \<not> is_error_status x) (statuses (fst (loop_body cb (Some f) env k)))
        = [''listening'', ''processing'']"
    by (simp add: pass_statuses)
next
  assume "status_returns (Some f) ''listening'' \<and> times_out (listen env k')"
  then show "statuses (fst (loop_body cb (Some f) env k')) = [''listening'']"
    by (simp add: pass_timed_out)
next
  assume "listen env j = Inr b \<and> recognize_google env b = Inl (UnknownValueError m)"
  then show "texts (fst (loop_body cb scb env j)) = []"
    by (simp add: pass_unintelligible)
qed


theorem status_reports_witness:
  "list_all valid_status (statuses (fst (audio_capture_thread 4 quiet (Some quiet)
                                          (session three_phrases mixed) started)))
   \<and> filter (\<lambda>x. \<not> is_error_status x)
        (statuses (fst (loop_body quiet (Some quiet) (session three_phrases mixed) 0)))
        = [''listening'', ''processing'']
   \<and> statuses (fst (loop_body quiet (Some quiet) (session three_phrases mixed) 3))
        = [''listening'']
   \<and> texts (fst (loop_body quiet (Some quiet) (session three_phrases mixed) 1)) = []"
proof -
  have h1: "status_returns (Some quiet) ''listening'' \<and> status_returns (Some quiet) ''processing''
            \<and> listen (session three_phrases mixed) 0 = Inr 0"
    by (simp add: status_returns_def quiet_def session_def three_phrases_def)
  have h2: "status_returns (Some quiet) ''listening''
            \<and> times_out (listen (session three_phrases mixed) 3)"
    by (simp add: status_returns_def quiet_def session_def three_phrases_def timed_out_def)
  have h3: "listen (session three_phrases mixed) 1 = Inr 1
            \<and> recognize_google (session three_phrases mixed) 1 = Inl (UnknownValueError [])"
    by (simp add: session_def three_phrases_def mixed_def)
  from status_reports [of 4 quiet "Some quiet" "session three_phrases mixed" started quiet
      0 0 3 1 1 "[]"] h1 h2 h3
  show ?thesis
    unfolding list_all_iff by blast
qed

text \<open>
  C8 as stated fails: in a capture attempt that times out the status callback sees
  \<^verbatim>\<open>listening\<close> and never \<^verbatim>\<open>processing\<close>.
\<close>
theorem timeout_status_counterexample:
  "loop_body quiet (Some quiet) (session silence spoken) 0
     = ([Status ''listening''], None, 1)"
  by code_simp

text \<open>
  With a status callback that is absent or returns from every error report, no pass leaves
  the loop: as long as the flag is read true the loop is still running.
\<close>

lemma worker_loop_running:
  assumes "\<forall>x. is_error_status x \<longrightarrow> status_returns scb x"
  shows "\<forall>j<n. flag env (i + j) \<Longrightarrow> snd (worker_loop n cb scb env i k) = StillRunning"
proof (induction n arbitrary: i k)
  case 0
  then show ?case by simp
next
  case (Suc n)
  from Suc.prems have f: "flag env i"
    by (metis add.right_neutral zero_less_Suc)
  from Suc.prems have "\<forall>j<n. flag env (Suc i + j)"
    by (metis Suc_less_eq add_Suc_shift)
  from Suc.IH [OF this] show ?case
    unfolding worker_loop_step [OF f loop_body_continues [OF assms]]
    by (simp del: worker_loop.simps)
qed

text \<open>
  C9. The claim is what the second handler is written for, and the code misses it in one
  place: the error report is itself an unprotected call of the status callback. In a pass
  whose \<^verbatim>\<open>try\<close> block raises an exception other than \<^verbatim>\<open>WaitTimeoutError\<close>, a status
  callback that raises on the report ends the loop in that pass, although the flag is true:
  nothing is logged by the handler and the loop does not continue. The same callback
  raising inside the \<^verbatim>\<open>try\<close> block, on \<^verbatim>\<open>listening\<close>, is caught, reported and logged, and
  the pass ends in the loop.
\<close>
theorem error_report_ends_worker:
  "(flag env i \<and> fst (snd (try_body cb (Some f) env k)) = Inl e \<and> \<not> times_out (Inl e)
      \<and> f (''error: '' @ str e) = Some e' \<longrightarrow>
    worker_loop (Suc n) cb (Some f) env i k
      = (fst (try_body cb (Some f) env k) @ [Status (''error: '' @ str e)], Escaped e'))
   \<and> (g ''listening'' = Some e0 \<and> \<not> times_out (Inl e0) \<and> g (''error: '' @ str e0) = None \<longrightarrow>
    loop_body cb (Some g) env k
      = ([Status ''listening'', Status (''error: '' @ str e0),
          Print (''Error in audio capture: '' @ str e0)], None, k))"
proof (intro conjI impI)
  assume h: "flag env i \<and> fst (snd (try_body cb (Some f) env k)) = Inl e \<and> \<not> times_out (Inl e)
      \<and> f (''error: '' @ str e) = Some e'"
  obtain ev r k' where t: "try_body cb (Some f) env k = (ev, r, k')"
    by (cases "try_body cb (Some f) env k")
  with h have r: "r = Inl e" by simp
  from h t r have "loop_body cb (Some f) env k = (ev @ [Status (''error: '' @ str e)], Some e', k')"
    by (cases e) (simp_all add: loop_body_def call_status_def)
  with h t show "worker_loop (Suc n) cb (Some f) env i k
      = (fst (try_body cb (Some f) env k) @ [Status (''error: '' @ str e)], Escaped e')"
    by simp
next
  assume h: "g ''listening'' = Some e0 \<and> \<not> times_out (Inl e0) \<and> g (''error: '' @ str e0) = None"
  then have "try_body cb (Some g) env k = ([Status ''listening''], Inl e0, k)"
    by (simp add: try_body_def call_status_def)
  with h show "loop_body cb (Some g) env k
      = ([Status ''listening'', Status (''error: '' @ str e0),
          Print (''Error in audio capture: '' @ str e0)], None, k)"
    by (cases e0) (simp_all add: loop_body_def call_status_def)
qed

theorem error_report_ends_worker_witness:
  "worker_loop 3 quiet (Some picky_status) (session unplugged spoken) 0 0
     = ([Status ''listening'', Status ''error: Stream closed''],
        Escaped (OtherException ''KeyError''))
   \<and> audio_capture_thread 3 quiet (Some picky_status) (session unplugged spoken) started
     = ([SetContext (Some 7), Status ''listening'', Status ''error: Stream closed'',
         Print ''Error in microphone context: KeyError'', SetContext None],
        Escaped (OtherException ''KeyError''))
   \<and> loop_body quiet (Some deaf_status) (session unplugged spoken) 0
     = ([Status ''listening'', Status ''error: widget destroyed'',
         Print ''Error in audio capture: widget destroyed''], None, 0)"
proof -
  have t: "try_body quiet (Some picky_status) (session unplugged spoken) 0
             = ([Status ''listening''], Inl (OtherException ''Stream closed''), 1)"
    by (simp add: try_body_def call_status_def picky_status_def session_def unplugged_def)
  have h1: "flag (session unplugged spoken) 0
      \<and> fst (snd (try_body quiet (Some picky_status) (session unplugged spoken) 0))
          = Inl (OtherException ''Stream closed'')
      \<and> \<not> times_out (Inl (OtherException ''Stream closed''))
      \<and> picky_status (''error: '' @ str (OtherException ''Stream closed''))
          = Some (OtherException ''KeyError'')"
    using t by (simp add: session_def picky_status_def)
  have h2: "deaf_status ''listening'' = Some (OtherException ''widget destroyed'')
      \<and> \<not> times_out (Inl (OtherException ''widget destroyed''))
      \<and> deaf_status (''error: '' @ str (OtherException ''widget destroyed'')) = None"
    by (simp add: deaf_status_def)
  have three: "(3::nat) = Suc 2"
    by simp
  from error_report_ends_worker [of "session unplugged spoken" 0 quiet picky_status 0
      "OtherException ''Stream closed''" "OtherException ''KeyError''" 2 deaf_status
      "OtherException ''widget destroyed''"] h1 h2 t
  have w: "worker_loop (Suc 2) quiet (Some picky_status) (session unplugged spoken) 0 0
     = ([Status ''listening'', Status ''error: Stream closed''],
        Escaped (OtherException ''KeyError''))"
    and d: "loop_body quiet (Some deaf_status) (session unplugged spoken) 0
     = ([Status ''listening'', Status ''error: widget destroyed'',
         Print ''Error in audio capture: widget destroyed''], None, 0)"
    by simp_all
  from w have w3: "worker_loop 3 quiet (Some picky_status) (session unplugged spoken) 0 0
     = ([Status ''listening'', Status ''error: Stream closed''],
        Escaped (OtherException ''KeyError''))"
    by (simp only: three)
  have a: "audio_capture_thread 3 quiet (Some picky_status) (session unplugged spoken) started
     = ([SetContext (Some 7), Status ''listening'', Status ''error: Stream closed'',
         Print ''Error in microphone context: KeyError'', SetContext None],
        Escaped (OtherException ''KeyError''))"
    unfolding audio_capture_thread_def w3
    by (simp add: started_def session_def)
  from w3 a d show ?thesis
    by blast
qed

end
